theory Spec2Isabelle
  imports Main "HOL-Library.Word" "HOL-Library.Char_ord" "HOL-Library.List_Lexorder"
    "HOL-Library.AList"
begin

section \<open>The read path of the PostgreSQL span store (pgstore/reader.go)\<close>

text \<open>
  The reader issues relational queries through an object-relational mapper and reassembles
  the rows. The tables are lists of rows; each query of the source is a function on these
  lists; a failing query is a value of type \<open>error\<close> returned next to the rows.
  Strings are ordered lexicographically by character code (the order of
  \<open>ORDER BY ... ASC\<close> under the byte-wise collation).
\<close>

subsection \<open>Storage schema\<close>

record Service =
  Service_ID :: nat
  ServiceName :: string

record Operation =
  Operation_ID :: nat
  OperationName :: string

record SpanRef =
  SpanRef_ID :: nat
  ChildSpanID :: nat

text \<open>Times are nanoseconds counted from Go's zero time \<open>time.Time{}\<close>; durations are
  nanoseconds. Neither takes part in any arithmetic in the reader, only in comparisons.\<close>

record Span =
  Span_ID :: nat
  TraceIDLow :: "64 word"
  TraceIDHigh :: "64 word"
  OperationID :: nat
  ServiceID :: nat
  ProcessID :: string
  ProcessTags :: "(string \<times> string) list"
  StartTime :: int
  Duration :: int
  Span_Operation :: Operation
  Span_Service :: Service
  SpanRefs :: "SpanRef list"

text \<open>The database handle \<open>r.db\<close>: the four tables. The rows of \<open>spans\<close> are stored
  with their relation fields (\<open>Span_Operation\<close>, \<open>Span_Service\<close>, \<open>SpanRefs\<close>) at the
  zero value; \<open>Relation\<close> fills them in when a query asks for them.\<close>

record DB =
  services :: "Service list"
  operations :: "Operation list"
  spans :: "Span list"
  span_refs :: "SpanRef list"

subsection \<open>Query execution and storage errors\<close>

datatype error = StorageError string | QueryError string

text \<open>A query either succeeds with all its rows, or fails with an error after the mapper
  has materialised some prefix of them (\<open>Some (n, e)\<close>: \<open>n\<close> rows, then error \<open>e\<close>).\<close>

type_synonym fault = "(nat \<times> error) option"

definition Select :: "fault \<Rightarrow> 'a list \<Rightarrow> 'a list \<times> error option" where
  "Select flt rows =
     (case flt of None \<Rightarrow> (rows, None) | Some (n, e) \<Rightarrow> (take n rows, Some e))"

subsection \<open>GetServices and GetOperations\<close>

fun GetServices_loop :: "Service list \<Rightarrow> string list \<Rightarrow> string list" where
  "GetServices_loop [] ret = ret"
| "GetServices_loop (service # rest) ret =
     (if length (ServiceName service) > 0
      then GetServices_loop rest (ret @ [ServiceName service])
      else GetServices_loop rest ret)"

definition GetServices :: "DB \<Rightarrow> fault \<Rightarrow> string list \<times> error option" where
  "GetServices r flt =
     (let (svcs, err) = Select flt (sort_key ServiceName (services r));
          ret = GetServices_loop svcs []
      in (ret, err))"

record spanstore_Operation =
  Name :: string
  SpanKind :: string

fun GetOperations_loop :: "Operation list \<Rightarrow> spanstore_Operation list \<Rightarrow> spanstore_Operation list" where
  "GetOperations_loop [] ret = ret"
| "GetOperations_loop (operation # rest) ret =
     (if length (OperationName operation) > 0
      then GetOperations_loop rest (ret @ [\<lparr>Name = OperationName operation, SpanKind = []\<rparr>])
      else GetOperations_loop rest ret)"

definition GetOperations :: "DB \<Rightarrow> fault \<Rightarrow> spanstore_Operation list \<times> error option" where
  "GetOperations r flt =
     (let (ops, err) = Select flt (sort_key OperationName (operations r));
          ret = GetOperations_loop ops []
      in (ret, err))"

subsection \<open>The predicate builder and the predicates the storage evaluates\<close>

text \<open>A bound parameter of a query: \<open>interface{}\<close> holding a \<open>uint64\<close>, a \<open>string\<close>,
  a \<open>time.Time\<close> or a \<open>time.Duration\<close>.\<close>

datatype param = PUint64 "64 word" | PString string | PTime int | PDuration int

record whereBuilder =
  where' :: string
  params :: "param list"

text \<open>Modelled from the spec: the method \<open>whereBuilder.andWhere\<close> is declared outside
  reader.go. The spec (4.1): every emitted fragment comes with its bound parameter, and
  "fragments are joined with AND, preserving the order in which criteria were evaluated".\<close>

definition andWhere :: "whereBuilder \<Rightarrow> param \<Rightarrow> string \<Rightarrow> whereBuilder" where
  "andWhere builder p w =
     \<lparr>where' = (if where' builder = [] then w else where' builder @ '' AND '' @ w),
      params = params builder @ [p]\<rparr>"

text \<open>The storage side. A predicate string is cut at the keyword \<open>AND\<close> (in either case,
  as SQL reads it); each piece is one comparison of a column with the next bound
  parameter. A piece the storage does not know, a parameter of the wrong type, or a
  number of parameters different from the number of pieces make the query fail.
  The empty predicate string is no comparison: the mapper sends it as \<open>WHERE ()\<close> and
  the storage rejects the query.\<close>

fun split_AND :: "string \<Rightarrow> string \<Rightarrow> string list" where
  "split_AND acc [] = [rev acc]"
| "split_AND acc (c # cs) =
     (if take 5 (c # cs) = '' AND '' \<or> take 5 (c # cs) = '' and ''
      then rev acc # split_AND [] (drop 4 cs)
      else split_AND (c # acc) cs)"

definition fragment_sem :: "string \<Rightarrow> param \<Rightarrow> (Span \<Rightarrow> bool) option" where
  "fragment_sem frag p =
     (if frag = ''trace_id_low = ?'' then
        (case p of PUint64 v \<Rightarrow> Some (\<lambda>row. TraceIDLow row = v) | _ \<Rightarrow> None)
      else if frag = ''trace_id_high = ?'' then
        (case p of PUint64 v \<Rightarrow> Some (\<lambda>row. TraceIDHigh row = v) | _ \<Rightarrow> None)
      else if frag = ''service.service_name = ?'' then
        (case p of PString v \<Rightarrow> Some (\<lambda>row. ServiceName (Span_Service row) = v) | _ \<Rightarrow> None)
      else if frag = ''operation.operation_name = ?'' then
        (case p of PString v \<Rightarrow> Some (\<lambda>row. OperationName (Span_Operation row) = v) | _ \<Rightarrow> None)
      else if frag = ''start_time >= ?'' then
        (case p of PTime v \<Rightarrow> Some (\<lambda>row. StartTime row \<ge> v) | _ \<Rightarrow> None)
      else if frag = ''duration < ?'' then
        (case p of PDuration v \<Rightarrow> Some (\<lambda>row. Duration row < v) | _ \<Rightarrow> None)
      else if frag = ''duration > ?'' then
        (case p of PDuration v \<Rightarrow> Some (\<lambda>row. Duration row > v) | _ \<Rightarrow> None)
      else None)"

fun compile_conj :: "string list \<Rightarrow> param list \<Rightarrow> (Span \<Rightarrow> bool) option" where
  "compile_conj [] [] = Some (\<lambda>row. True)"
| "compile_conj (frag # frags) (p # ps) =
     (case fragment_sem frag p of
        None \<Rightarrow> None
      | Some P \<Rightarrow>
          (case compile_conj frags ps of
             None \<Rightarrow> None
           | Some Q \<Rightarrow> Some (\<lambda>row. P row \<and> Q row)))"
| "compile_conj _ _ = None"

definition compile_where :: "string \<Rightarrow> param list \<Rightarrow> (Span \<Rightarrow> bool) option" where
  "compile_where w ps = compile_conj (split_AND [] w) ps"

definition Where :: "string \<Rightarrow> param list \<Rightarrow> Span list \<Rightarrow> error + Span list" where
  "Where w ps rows =
     (case compile_where w ps of
        None \<Rightarrow> Inl (QueryError w)
      | Some P \<Rightarrow> Inr (filter P rows))"

text \<open>Running a query: a malformed query fails before any row is read; otherwise the
  fault of the call decides.\<close>

definition run :: "fault \<Rightarrow> error + 'a list \<Rightarrow> 'a list \<times> error option" where
  "run flt q = (case q of Inl e \<Rightarrow> ([], Some e) | Inr rows \<Rightarrow> Select flt rows)"

text \<open>\<open>Relation("Operation")\<close> and \<open>Relation("Service")\<close> are part of the select: the
  row's operation and service (left join on the foreign key; the zero value stays when
  there is none).\<close>

definition Relations :: "DB \<Rightarrow> Span \<Rightarrow> Span" where
  "Relations r s =
     s\<lparr>Span_Operation :=
         (case find (\<lambda>operation. Operation_ID operation = OperationID s) (operations r) of
            None \<Rightarrow> \<lparr>Operation_ID = 0, OperationName = []\<rparr>
          | Some operation \<Rightarrow> operation),
       Span_Service :=
         (case find (\<lambda>service. Service_ID service = ServiceID s) (services r) of
            None \<Rightarrow> \<lparr>Service_ID = 0, ServiceName = []\<rparr>
          | Some service \<Rightarrow> service),
       SpanRefs := []\<rparr>"

text \<open>\<open>Relation("SpanRefs")\<close> is a second query, which the mapper runs for the selected
  rows after the select has succeeded: the references going out of each span. After a
  failed select the materialised rows keep no references.\<close>

definition Relation_SpanRefs :: "DB \<Rightarrow> Span \<Rightarrow> Span" where
  "Relation_SpanRefs r s =
     s\<lparr>SpanRefs := filter (\<lambda>ref. SpanRef_ID ref = Span_ID s) (span_refs r)\<rparr>"

definition Select_spans :: "DB \<Rightarrow> fault \<Rightarrow> error + Span list \<Rightarrow> Span list \<times> error option" where
  "Select_spans r flt q =
     (case run flt q of
        (rows, None) \<Rightarrow> (map (Relation_SpanRefs r) rows, None)
      | (rows, Some e) \<Rightarrow> (rows, Some e))"

subsection \<open>The output model\<close>

record TraceID =
  Low :: "64 word"
  High :: "64 word"

record model_Span =
  mTraceID :: TraceID
  mSpanID :: nat
  mOperationName :: string
  mReferences :: "nat list"
  mStartTime :: int
  mDuration :: int
  mProcessID :: string

record Process =
  pServiceName :: string
  pTags :: "(string \<times> string) list"

record Trace_ProcessMapping =
  pmProcessID :: string
  pmProcess :: Process

record Trace =
  Spans :: "model_Span list"
  ProcessMap :: "Trace_ProcessMapping list"

text \<open>Modelled from the spec: the function \<open>toModelSpan\<close> is declared outside reader.go.
  The spec (3, 4.4): a span projection in the output model; the span's trace is
  determined by its trace-id pair.\<close>

definition toModelSpan :: "Span \<Rightarrow> model_Span" where
  "toModelSpan span =
     \<lparr>mTraceID = \<lparr>Low = TraceIDLow span, High = TraceIDHigh span\<rparr>,
      mSpanID = Span_ID span,
      mOperationName = OperationName (Span_Operation span),
      mReferences = map ChildSpanID (SpanRefs span),
      mStartTime = StartTime span,
      mDuration = Duration span,
      mProcessID = ProcessID span\<rparr>"

text \<open>Modelled from the spec: the function \<open>mapToModelKV\<close> is declared outside reader.go.
  The spec (3): the process tags are a mapping of tag key to value, carried into the
  process map as the tag set.\<close>

definition mapToModelKV :: "(string \<times> string) list \<Rightarrow> (string \<times> string) list" where
  "mapToModelKV tags = tags"

subsection \<open>GetTrace\<close>

definition GetTrace_builder :: "TraceID \<Rightarrow> whereBuilder" where
  "GetTrace_builder traceID =
     (let builder = \<lparr>where' = [], params = []\<rparr>;
          builder = (if Low traceID > 0
                     then andWhere builder (PUint64 (Low traceID)) ''trace_id_low = ?''
                     else builder);
          builder = (if High traceID > 0
                     then andWhere builder (PUint64 (High traceID)) ''trace_id_high = ?''
                     else builder)
      in builder)"

definition procMapping :: "Span \<Rightarrow> Trace_ProcessMapping" where
  "procMapping span =
     \<lparr>pmProcessID = ProcessID span,
      pmProcess = \<lparr>pServiceName = ServiceName (Span_Service span),
                   pTags = mapToModelKV (ProcessTags span)\<rparr>\<rparr>"

fun GetTrace_loop ::
  "Span list \<Rightarrow> model_Span list \<Rightarrow> Trace_ProcessMapping list
     \<Rightarrow> model_Span list \<times> Trace_ProcessMapping list" where
  "GetTrace_loop [] ret ret2 = (ret, ret2)"
| "GetTrace_loop (span # rest) ret ret2 =
     GetTrace_loop rest (ret @ [toModelSpan span]) (ret2 @ [procMapping span])"

definition GetTrace :: "DB \<Rightarrow> fault \<Rightarrow> TraceID \<Rightarrow> Trace \<times> error option" where
  "GetTrace r flt traceID =
     (let builder = GetTrace_builder traceID;
          (spns, err) = Select_spans r flt (Where (where' builder) (params builder)
                                              (map (Relations r) (spans r)));
          (ret, ret2) = GetTrace_loop spns [] []
      in (\<lparr>Spans = ret, ProcessMap = ret2\<rparr>, err))"

subsection \<open>buildTraceWhere and FindTraceIDs\<close>

text \<open>\<open>NumTraces\<close> is a Go \<open>int\<close> (64 bits, two's complement).\<close>

record TraceQueryParameters =
  qServiceName :: string
  qOperationName :: string
  qTags :: "(string \<times> string) list"
  StartTimeMin :: int
  StartTimeMax :: int
  DurationMin :: int
  DurationMax :: int
  NumTraces :: "64 word"

definition buildTraceWhere :: "TraceQueryParameters \<Rightarrow> whereBuilder" where
  "buildTraceWhere query =
     (let builder = \<lparr>where' = [], params = []\<rparr>;
          builder = (if length (qServiceName query) > 0
                     then andWhere builder (PString (qServiceName query))
                            ''service.service_name = ?''
                     else builder);
          builder = (if length (qOperationName query) > 0
                     then andWhere builder (PString (qOperationName query))
                            ''operation.operation_name = ?''
                     else builder);
          builder = (if StartTimeMin query > 0
                     then andWhere builder (PTime (StartTimeMin query)) ''start_time >= ?''
                     else builder);
          builder = (if StartTimeMax query > 0 then builder else builder);
          builder = (if DurationMin query > 0
                     then andWhere builder (PDuration (DurationMin query)) ''duration < ?''
                     else builder);
          builder = (if DurationMax query > 0
                     then andWhere builder (PDuration (DurationMax query)) ''duration > ?''
                     else builder)
      in builder)"

text \<open>The two inner joins of FindTraceIDs: one row per span, operation and service whose
  keys match.\<close>

definition Join_operations_services :: "DB \<Rightarrow> Span list" where
  "Join_operations_services r =
     [s\<lparr>Span_Operation := operation, Span_Service := service\<rparr>.
        s \<leftarrow> spans r,
        operation \<leftarrow> operations r, Operation_ID operation = OperationID s,
        service \<leftarrow> services r, Service_ID service = ServiceID s]"

text \<open>\<open>Limit(n)\<close>: the mapper writes a LIMIT clause when \<open>n\<close> is not 0, and PostgreSQL
  rejects a negative LIMIT.\<close>

definition Limit :: "64 word \<Rightarrow> 'a list \<Rightarrow> error + 'a list" where
  "Limit n rows =
     (if n = 0 then Inr rows
      else if sint n < 0 then Inl (QueryError ''LIMIT must not be negative'')
      else Inr (take (nat (sint n)) rows))"

definition distinct_ids :: "Span list \<Rightarrow> TraceID list" where
  "distinct_ids rows =
     remdups (map (\<lambda>row. \<lparr>Low = TraceIDLow row, High = TraceIDHigh row\<rparr>) rows)"

definition FindTraceIDs ::
  "DB \<Rightarrow> fault \<Rightarrow> TraceQueryParameters \<Rightarrow> TraceID list \<times> error option" where
  "FindTraceIDs r flt query =
     (let builder = buildTraceWhere query;
          limit = NumTraces query;
          limit = (if sint limit \<le> 0 then 10 else limit)
      in run flt
           (case Where (where' builder) (params builder) (Join_operations_services r) of
              Inl e \<Rightarrow> Inl e
            | Inr rows \<Rightarrow> Limit (100 * limit) (distinct_ids rows)))"

subsection \<open>FindTraces\<close>

text \<open>The Go map \<open>grouping\<close> from trace identifier to trace is an association list with
  one pair per key, in the order the keys were first inserted. Go leaves the order of
  \<open>range grouping\<close> open; the properties below speak of the traces returned, not of
  their order.\<close>

type_synonym grouping = "(TraceID \<times> Trace) list"

fun FindTraces_spans :: "Span list \<Rightarrow> grouping \<Rightarrow> grouping" where
  "FindTraces_spans [] grouping = grouping"
| "FindTraces_spans (span # rest) grouping =
     (let modelSpan = toModelSpan span;
          trace = (case map_of grouping (mTraceID modelSpan) of
                     None \<Rightarrow> \<lparr>Spans = [], ProcessMap = []\<rparr>
                   | Some t \<Rightarrow> t);
          trace = trace\<lparr>Spans := Spans trace @ [modelSpan]\<rparr>;
          procMap = procMapping span;
          trace = trace\<lparr>ProcessMap := ProcessMap trace @ [procMap]\<rparr>
      in FindTraces_spans rest (AList.update (mTraceID modelSpan) trace grouping))"

text \<open>The loop over the trace identifiers; \<open>flts i\<close> is the fault of the \<open>i\<close>-th query of
  the call (query 0 is the one of FindTraceIDs).\<close>

fun FindTraces_loop ::
  "DB \<Rightarrow> (nat \<Rightarrow> fault) \<Rightarrow> nat \<Rightarrow> TraceID list \<Rightarrow> grouping \<Rightarrow> error + grouping" where
  "FindTraces_loop r flts i [] grouping = Inr grouping"
| "FindTraces_loop r flts i (traceID # rest) grouping =
     (let (spns, err) =
            Select_spans r (flts i)
              (case Where ''trace_id_low = ? and trace_id_high = ?''
                      [PUint64 (Low traceID), PUint64 (High traceID)]
                      (map (Relations r) (spans r)) of
                 Inl e \<Rightarrow> Inl e
               | Inr rows \<Rightarrow> Inr (sort_key StartTime rows))
      in case err of
           Some e \<Rightarrow> Inl e
         | None \<Rightarrow> FindTraces_loop r flts (Suc i) rest (FindTraces_spans spns grouping))"

definition FindTraces ::
  "DB \<Rightarrow> (nat \<Rightarrow> fault) \<Rightarrow> TraceQueryParameters \<Rightarrow> Trace list \<times> error option" where
  "FindTraces r flts query =
     (let (traceIDs, err) = FindTraceIDs r (flts 0) query;
          ret = []
      in if err \<noteq> None then (ret, err)
         else (case FindTraces_loop r flts 1 traceIDs [] of
                 Inl e \<Rightarrow> (ret, Some e)
               | Inr grouping \<Rightarrow> (ret @ map snd grouping, None)))"

subsection \<open>GetDependencies\<close>

text \<open>The result type is \<open>model.DependencyLink\<close> of the tracing model: parent and child
  are strings, the call count is a \<open>uint64\<close>.\<close>

record DependencyLink =
  Parent :: string
  Child :: string
  CallCount :: "64 word"
  Source :: string

text \<open>An integer column read into a string field arrives as its decimal text.\<close>

fun decimal :: "nat \<Rightarrow> string" where
  "decimal n =
     (if n < 10 then [char_of (48 + n)]
      else decimal (n div 10) @ [char_of (48 + n mod 10)])"

declare decimal.simps [simp del]

text \<open>The four inner joins of the query, in the order and with the conditions written
  in the source, then the grouping by the four selected columns with \<open>count(*)\<close>.
  The arguments \<open>endTs\<close> and \<open>lookback\<close> do not occur in the query.\<close>

definition GetDependencies_joined :: "DB \<Rightarrow> (nat \<times> string \<times> nat \<times> string) list" where
  "GetDependencies_joined r =
     [(ServiceID source_spans, ServiceName source_service,
       ServiceID child_spans, ServiceName child_service).
        span_ref \<leftarrow> span_refs r,
        source_spans \<leftarrow> spans r, Span_ID source_spans = SpanRef_ID span_ref,
        source_service \<leftarrow> services r, Service_ID source_service = ServiceID source_spans,
        child_spans \<leftarrow> spans r, Span_ID child_spans = ChildSpanID span_ref,
        child_service \<leftarrow> services r, Service_ID child_service = ServiceID source_spans]"

text \<open>Every row of the result is read into a \<open>DependencyLink\<close>: the columns \<open>parent\<close>,
  \<open>child\<close> and \<open>call_count\<close> fill the fields of these names, the columns
  \<open>parent_name\<close> and \<open>child_name\<close> have no field, and the mapper reports the first of
  them as the error of the call, which it returns with the rows it has read.\<close>

definition unknown_column :: error where
  "unknown_column = QueryError ''parent_name''"

definition GetDependencies ::
  "DB \<Rightarrow> fault \<Rightarrow> int \<Rightarrow> int \<Rightarrow> DependencyLink list \<times> error option" where
  "GetDependencies r flt endTs lookback =
     (let rows = GetDependencies_joined r;
          (ret, err) =
            Select flt
              (map (\<lambda>(parent, parent_name, child, child_name).
                      \<lparr>Parent = decimal parent, Child = decimal child,
                       CallCount =
                         of_nat (count_list rows (parent, parent_name, child, child_name)),
                       Source = []\<rparr>)
                   (remdups rows))
      in (ret, if ret = [] then err else Some unknown_column))"

subsection \<open>The filter builder as the spec describes it\<close>

text \<open>The fragments "joined with AND" (4.1), the comparisons the storage knows, the
  ordered list of (fragment, parameter) pairs of a criteria value, and the rows a
  criteria value admits. These follow the spec's words, with the tests for presence and
  the comparison operators of \<open>buildTraceWhere\<close>; the theorems below relate them to
  the predicate string the code builds.\<close>

fun join_AND :: "string list \<Rightarrow> string" where
  "join_AND [] = []"
| "join_AND [f] = f"
| "join_AND (f # g # fs) = f @ '' AND '' @ join_AND (g # fs)"

definition known_fragments :: "string list" where
  "known_fragments = [''trace_id_low = ?'', ''trace_id_high = ?'', ''service.service_name = ?'',
     ''operation.operation_name = ?'', ''start_time >= ?'', ''duration < ?'', ''duration > ?'']"

definition criteria_fragments :: "TraceQueryParameters \<Rightarrow> (string \<times> param) list" where
  "criteria_fragments query =
     (if qServiceName query \<noteq> []
      then [(''service.service_name = ?'', PString (qServiceName query))] else []) @
     (if qOperationName query \<noteq> []
      then [(''operation.operation_name = ?'', PString (qOperationName query))] else []) @
     (if StartTimeMin query > 0
      then [(''start_time >= ?'', PTime (StartTimeMin query))] else []) @
     (if DurationMin query > 0
      then [(''duration < ?'', PDuration (DurationMin query))] else []) @
     (if DurationMax query > 0
      then [(''duration > ?'', PDuration (DurationMax query))] else [])"

definition criteria_holds :: "TraceQueryParameters \<Rightarrow> Span \<Rightarrow> bool" where
  "criteria_holds query row \<longleftrightarrow>
     (qServiceName query \<noteq> [] \<longrightarrow> ServiceName (Span_Service row) = qServiceName query) \<and>
     (qOperationName query \<noteq> [] \<longrightarrow>
        OperationName (Span_Operation row) = qOperationName query) \<and>
     (StartTimeMin query > 0 \<longrightarrow> StartTime row \<ge> StartTimeMin query) \<and>
     (DurationMin query > 0 \<longrightarrow> Duration row < DurationMin query) \<and>
     (DurationMax query > 0 \<longrightarrow> Duration row > DurationMax query)"

subsection \<open>Notions used in the statements and proofs\<close>

text \<open>The rows a trace identifier admits in GetTrace (a zero half is not compared), the
  rows the per-trace query of FindTraces returns, the trace a key of \<open>grouping\<close> stands
  for before a span is added, and two properties of an assembled trace.\<close>

definition traceID_holds :: "TraceID \<Rightarrow> Span \<Rightarrow> bool" where
  "traceID_holds traceID row \<longleftrightarrow>
     (Low traceID \<noteq> 0 \<longrightarrow> TraceIDLow row = Low traceID) \<and>
     (High traceID \<noteq> 0 \<longrightarrow> TraceIDHigh row = High traceID)"

definition trace_rows :: "DB \<Rightarrow> TraceID \<Rightarrow> Span list" where
  "trace_rows r traceID =
     map (Relation_SpanRefs r)
       (sort_key StartTime
          (filter (\<lambda>row. TraceIDLow row = Low traceID \<and> TraceIDHigh row = High traceID)
             (map (Relations r) (spans r))))"

definition base :: "grouping \<Rightarrow> TraceID \<Rightarrow> Trace" where
  "base g k = (case map_of g k of None \<Rightarrow> \<lparr>Spans = [], ProcessMap = []\<rparr> | Some t \<Rightarrow> t)"

definition spans_sorted :: "Trace \<Rightarrow> bool" where
  "spans_sorted t \<longleftrightarrow> sorted (map mStartTime (Spans t))"

definition ids_match :: "Trace_ProcessMapping list \<Rightarrow> model_Span list \<Rightarrow> bool" where
  "ids_match pm sps \<longleftrightarrow> map pmProcessID pm = map mProcessID sps"

text \<open>A store keeps referential integrity when span and service identifiers are unique,
  both ends of every reference are stored spans and every span has a stored service.\<close>

definition referential_integrity :: "DB \<Rightarrow> bool" where
  "referential_integrity r \<longleftrightarrow>
     distinct (map Span_ID (spans r)) \<and>
     distinct (map Service_ID (services r)) \<and>
     (\<forall>ref \<in> set (span_refs r).
        SpanRef_ID ref \<in> Span_ID ` set (spans r) \<and>
        ChildSpanID ref \<in> Span_ID ` set (spans r)) \<and>
     (\<forall>s \<in> set (spans r). ServiceID s \<in> Service_ID ` set (services r))"

subsection \<open>Example stores\<close>

definition catalogue_db :: DB where
  "catalogue_db =
     \<lparr>services = [\<lparr>Service_ID = 1, ServiceName = ''b''\<rparr>,
                  \<lparr>Service_ID = 2, ServiceName = []\<rparr>,
                  \<lparr>Service_ID = 3, ServiceName = ''a''\<rparr>],
      operations = [\<lparr>Operation_ID = 1, OperationName = ''query''\<rparr>,
                    \<lparr>Operation_ID = 2, OperationName = []\<rparr>,
                    \<lparr>Operation_ID = 3, OperationName = ''GET''\<rparr>],
      spans = [], span_refs = []\<rparr>"

definition span_row ::
  "nat \<Rightarrow> 64 word \<Rightarrow> 64 word \<Rightarrow> nat \<Rightarrow> nat \<Rightarrow> string \<Rightarrow> int \<Rightarrow> int \<Rightarrow> Span" where
  "span_row i lo hi operation service process start dur =
     \<lparr>Span_ID = i, TraceIDLow = lo, TraceIDHigh = hi, OperationID = operation,
      ServiceID = service, ProcessID = process, ProcessTags = [], StartTime = start,
      Duration = dur,
      Span_Operation = \<lparr>Operation_ID = 0, OperationName = []\<rparr>,
      Span_Service = \<lparr>Service_ID = 0, ServiceName = []\<rparr>,
      SpanRefs = []\<rparr>"

definition trace_db :: DB where
  "trace_db =
     \<lparr>services = [\<lparr>Service_ID = 1, ServiceName = ''a''\<rparr>,
                  \<lparr>Service_ID = 2, ServiceName = ''b''\<rparr>],
      operations = [\<lparr>Operation_ID = 1, OperationName = ''GET''\<rparr>,
                    \<lparr>Operation_ID = 2, OperationName = ''query''\<rparr>],
      spans = [span_row 1 7 9 1 1 ''p1'' 100 10,
               span_row 2 7 9 2 2 ''p1'' 50 3,
               span_row 3 7 5 1 1 ''p2'' 70 20],
      span_refs = [\<lparr>SpanRef_ID = 1, ChildSpanID = 2\<rparr>]\<rparr>"

definition no_criteria :: "64 word \<Rightarrow> TraceQueryParameters" where
  "no_criteria n =
     \<lparr>qServiceName = [], qOperationName = [], qTags = [], StartTimeMin = 0,
      StartTimeMax = 0, DurationMin = 0, DurationMax = 0, NumTraces = n\<rparr>"

definition fail_at :: "nat \<Rightarrow> nat \<Rightarrow> fault" where
  "fail_at k i = (if i = k then Some (0, StorageError ''down'') else None)"

definition dur_query :: TraceQueryParameters where
  "dur_query = (no_criteria 0)\<lparr>DurationMin := 5\<rparr>"

definition svc_dur_query :: TraceQueryParameters where
  "svc_dur_query = (no_criteria 0)\<lparr>qServiceName := ''a'', DurationMin := 5\<rparr>"

definition svc_query :: TraceQueryParameters where
  "svc_query = (no_criteria 0)\<lparr>qServiceName := ''a''\<rparr>"

definition durmax_query :: TraceQueryParameters where
  "durmax_query = (no_criteria 1)\<lparr>DurationMax := 1\<rparr>"

definition trace_7_9 :: Trace where
  "trace_7_9 =
     \<lparr>Spans =
        [\<lparr>mTraceID = \<lparr>Low = 7, High = 9\<rparr>, mSpanID = 2, mOperationName = ''query'',
          mReferences = [], mStartTime = 50, mDuration = 3, mProcessID = ''p1''\<rparr>,
         \<lparr>mTraceID = \<lparr>Low = 7, High = 9\<rparr>, mSpanID = 1, mOperationName = ''GET'',
          mReferences = [2], mStartTime = 100, mDuration = 10, mProcessID = ''p1''\<rparr>],
      ProcessMap =
        [\<lparr>pmProcessID = ''p1'', pmProcess = \<lparr>pServiceName = ''b'', pTags = []\<rparr>\<rparr>,
         \<lparr>pmProcessID = ''p1'', pmProcess = \<lparr>pServiceName = ''a'', pTags = []\<rparr>\<rparr>]\<rparr>"

definition many_db :: DB where
  "many_db =
     \<lparr>services = [\<lparr>Service_ID = 1, ServiceName = ''a''\<rparr>],
      operations = [\<lparr>Operation_ID = 1, OperationName = ''GET''\<rparr>],
      spans = map (\<lambda>i. span_row i (of_nat i) 1 1 1 ''p1'' 0 10) [1..<102],
      span_refs = []\<rparr>"

definition neg_query :: TraceQueryParameters where
  "neg_query = (no_criteria 0)\<lparr>DurationMin := - 1\<rparr>"

section \<open>Properties\<close>

subsection \<open>The service catalogue\<close>

lemma GetServices_loop_eq:
  "GetServices_loop svcs ret = ret @ filter (\<lambda>n. n \<noteq> []) (map ServiceName svcs)"
  by (induction svcs arbitrary: ret) simp_all

lemma GetOperations_loop_eq:
  "map Name (GetOperations_loop ops ret) =
     map Name ret @ filter (\<lambda>n. n \<noteq> []) (map OperationName ops)"
  by (induction ops arbitrary: ret) simp_all

lemma fst_Select:
  "fst (Select flt rows) =
     take (case flt of None \<Rightarrow> length rows | Some (n, e) \<Rightarrow> n) rows"
  by (simp add: Select_def split: option.splits prod.splits)

lemma snd_Select: "snd (Select flt rows) = map_option snd flt"
  by (simp add: Select_def split: option.splits prod.splits)

lemma sorted_take_sort_key: "sorted (map f (take n (sort_key f xs)))"
  by (simp add: take_map [symmetric])

lemma sorted_names_take: "sorted (filter P (map f (take n (sort_key f xs))))"
  by (rule sorted_wrt_filter) (rule sorted_take_sort_key)

lemma GetServices_eq:
  "GetServices r flt =
     (filter (\<lambda>n. n \<noteq> [])
        (map ServiceName (fst (Select flt (sort_key ServiceName (services r))))),
      map_option snd flt)"
  using snd_Select [of flt "sort_key ServiceName (services r)"]
  by (cases "Select flt (sort_key ServiceName (services r))")
     (simp add: GetServices_def GetServices_loop_eq)

lemma GetOperations_eq:
  "map Name (fst (GetOperations r flt)) =
     filter (\<lambda>n. n \<noteq> [])
       (map OperationName (fst (Select flt (sort_key OperationName (operations r)))))"
  by (simp add: GetOperations_def GetOperations_loop_eq split: prod.splits)

lemma GetOperations_err: "snd (GetOperations r flt) = map_option snd flt"
  using snd_Select [of flt "sort_key OperationName (operations r)"]
  by (cases "Select flt (sort_key OperationName (operations r))")
     (simp add: GetOperations_def)

text \<open>
  C9. GetServices and GetOperations return the names in ascending order and without any
  empty name, whatever rows the storage holds; when the query fails they return its error
  unchanged, together with the names of the rows that were materialised before the
  failure (filtered in the same way).
\<close>

theorem GetServices_GetOperations_sorted_nonempty_partial:
  "[] \<notin> set (fst (GetServices r flt)) \<and>
   sorted (fst (GetServices r flt)) \<and>
   GetServices r flt =
     (filter (\<lambda>n. n \<noteq> [])
        (map ServiceName (fst (Select flt (sort_key ServiceName (services r))))),
      map_option snd flt) \<and>
   [] \<notin> set (map Name (fst (GetOperations r flt))) \<and>
   sorted (map Name (fst (GetOperations r flt))) \<and>
   map Name (fst (GetOperations r flt)) =
     filter (\<lambda>n. n \<noteq> [])
       (map OperationName (fst (Select flt (sort_key OperationName (operations r))))) \<and>
   snd (GetOperations r flt) = map_option snd flt"
proof -
  have s1: "[] \<notin> set (fst (GetServices r flt))"
    by (simp add: GetServices_eq)
  have s2: "sorted (fst (GetServices r flt))"
    unfolding GetServices_eq fst_Select fst_conv by (rule sorted_names_take)
  have o1: "[] \<notin> set (map Name (fst (GetOperations r flt)))"
    unfolding GetOperations_eq by simp
  have o2: "sorted (map Name (fst (GetOperations r flt)))"
    unfolding GetOperations_eq fst_Select by (rule sorted_names_take)
  from s1 s2 o1 o2 GetServices_eq GetOperations_eq GetOperations_err
  show ?thesis by blast
qed

theorem GetServices_GetOperations_sorted_nonempty_partial_witness:
  "GetServices catalogue_db (Some (2, StorageError ''down'')) =
     ([''a''], Some (StorageError ''down'')) \<and>
   sorted [''a''] \<and>
   GetServices catalogue_db None = ([''a'', ''b''], None) \<and>
   map Name (fst (GetOperations catalogue_db None)) = [''GET'', ''query''] \<and>
   snd (GetOperations catalogue_db (Some (1, StorageError ''down''))) =
     Some (StorageError ''down'')"
  using GetServices_GetOperations_sorted_nonempty_partial
          [of catalogue_db "Some (2, StorageError ''down'')"]
        GetServices_GetOperations_sorted_nonempty_partial [of catalogue_db None]
        GetServices_GetOperations_sorted_nonempty_partial
          [of catalogue_db "Some (1, StorageError ''down'')"]
  by (simp add: catalogue_db_def Select_def)

subsection \<open>Predicates built by the reader\<close>

lemma split_AND_known_last: "f \<in> set known_fragments \<Longrightarrow> split_AND acc f = [rev acc @ f]"
  by (auto simp: known_fragments_def)

lemma split_AND_known: "f \<in> set known_fragments \<Longrightarrow> split_AND acc (f @ '' AND '' @ rest) = (rev acc @ f) # split_AND [] rest"
  by (auto simp: known_fragments_def)

lemma split_AND_join: "set fs \<subseteq> set known_fragments \<Longrightarrow> fs \<noteq> [] \<Longrightarrow> split_AND [] (join_AND fs) = fs"
proof (induction fs rule: join_AND.induct)
  case 1 then show ?case by simp
next
  case (2 f) then show ?case by (simp add: split_AND_known_last)
next
  case (3 f g fs)
  then show ?case
    using split_AND_known [of f "[]" "join_AND (g # fs)"] by simp
qed

lemma buildTraceWhere_eq:
  "where' (buildTraceWhere query) = join_AND (map fst (criteria_fragments query))"
  "params (buildTraceWhere query) = map snd (criteria_fragments query)"
  by (simp_all add: buildTraceWhere_def andWhere_def criteria_fragments_def Let_def)

lemma criteria_fragments_cases:
  "fp \<in> set (criteria_fragments query) \<Longrightarrow>
     fp = (''service.service_name = ?'', PString (qServiceName query)) \<or>
     fp = (''operation.operation_name = ?'', PString (qOperationName query)) \<or>
     fp = (''start_time >= ?'', PTime (StartTimeMin query)) \<or>
     fp = (''duration < ?'', PDuration (DurationMin query)) \<or>
     fp = (''duration > ?'', PDuration (DurationMax query))"
  unfolding criteria_fragments_def set_append Un_iff
  by (elim disjE) (simp_all split: if_splits)

lemma criteria_fragments_known:
  "fst ` set (criteria_fragments query) \<subseteq> set known_fragments"
proof
  fix f assume "f \<in> fst ` set (criteria_fragments query)"
  then obtain fp where "fp \<in> set (criteria_fragments query)" "f = fst fp" by blast
  from criteria_fragments_cases [OF this(1)] this(2) show "f \<in> set known_fragments"
    unfolding known_fragments_def by (elim disjE) simp_all
qed

lemma fragment_sem_simps:
  "fragment_sem ''trace_id_low = ?'' (PUint64 w) = Some (\<lambda>row. TraceIDLow row = w)"
  "fragment_sem ''trace_id_high = ?'' (PUint64 w) = Some (\<lambda>row. TraceIDHigh row = w)"
  "fragment_sem ''service.service_name = ?'' (PString s) =
     Some (\<lambda>row. ServiceName (Span_Service row) = s)"
  "fragment_sem ''operation.operation_name = ?'' (PString s) =
     Some (\<lambda>row. OperationName (Span_Operation row) = s)"
  "fragment_sem ''start_time >= ?'' (PTime t) = Some (\<lambda>row. StartTime row \<ge> t)"
  "fragment_sem ''duration < ?'' (PDuration d) = Some (\<lambda>row. Duration row < d)"
  "fragment_sem ''duration > ?'' (PDuration d) = Some (\<lambda>row. Duration row > d)"
  by (simp_all add: fragment_sem_def)

lemma compile_conj_pairs:
  "\<forall>(f, p) \<in> set fps. fragment_sem f p \<noteq> None \<Longrightarrow>
   \<exists>P. compile_conj (map fst fps) (map snd fps) = Some P \<and>
       (\<forall>row. P row = (\<forall>(f, p) \<in> set fps. the (fragment_sem f p) row))"
proof (induction fps)
  case Nil
  then show ?case by simp
next
  case (Cons fp fps)
  obtain f p where fp: "fp = (f, p)" by (cases fp)
  from Cons.prems fp obtain Q where Q: "fragment_sem f p = Some Q" by auto
  from Cons obtain P where P: "compile_conj (map fst fps) (map snd fps) = Some P"
    "\<forall>row. P row = (\<forall>(f, p) \<in> set fps. the (fragment_sem f p) row)" by auto
  show ?case using fp Q P by simp
qed

lemma criteria_fragments_sem:
  "\<forall>(f, p) \<in> set (criteria_fragments query). fragment_sem f p \<noteq> None"
  by (simp add: criteria_fragments_def fragment_sem_simps ball_Un)

lemma criteria_fragments_holds:
  "(\<forall>(f, p) \<in> set (criteria_fragments query). the (fragment_sem f p) row) = criteria_holds query row"
  by (simp add: criteria_fragments_def fragment_sem_simps criteria_holds_def ball_Un)

lemma compile_buildTraceWhere:
  "criteria_fragments query \<noteq> [] \<Longrightarrow>
   \<exists>P. compile_where (where' (buildTraceWhere query)) (params (buildTraceWhere query)) = Some P \<and>
       (\<forall>row. P row = criteria_holds query row)"
proof -
  assume False: "criteria_fragments query \<noteq> []"
  have k: "set (map fst (criteria_fragments query)) \<subseteq> set known_fragments"
    using criteria_fragments_known by simp
  have s: "split_AND [] (join_AND (map fst (criteria_fragments query))) =
           map fst (criteria_fragments query)"
    using split_AND_join [OF k] False by simp
  show ?thesis
    using compile_conj_pairs [OF criteria_fragments_sem, of query]
      criteria_fragments_holds [of query] s
    by (simp add: buildTraceWhere_eq compile_where_def)
qed

lemma Where_buildTraceWhere:
  "criteria_fragments query \<noteq> [] \<Longrightarrow>
   Where (where' (buildTraceWhere query)) (params (buildTraceWhere query)) rows =
     Inr (filter (criteria_holds query) rows)"
proof -
  assume "criteria_fragments query \<noteq> []"
  from compile_buildTraceWhere [OF this] obtain P where
    P: "compile_where (where' (buildTraceWhere query)) (params (buildTraceWhere query)) = Some P"
       "\<forall>row. P row = criteria_holds query row" by blast
  then have "filter P rows = filter (criteria_holds query) rows" by (simp cong: filter_cong)
  with P show ?thesis by (simp add: Where_def)
qed

subsection \<open>Trace assembly\<close>

lemma GetTrace_loop_eq:
  "GetTrace_loop spns ret ret2 = (ret @ map toModelSpan spns, ret2 @ map procMapping spns)"
  by (induction spns arbitrary: ret ret2) simp_all

lemma GetTrace_builder_cases:
  "GetTrace_builder traceID =
     (if Low traceID = 0 then
        (if High traceID = 0 then \<lparr>where' = [], params = []\<rparr>
         else \<lparr>where' = ''trace_id_high = ?'', params = [PUint64 (High traceID)]\<rparr>)
      else
        (if High traceID = 0
         then \<lparr>where' = ''trace_id_low = ?'', params = [PUint64 (Low traceID)]\<rparr>
         else \<lparr>where' = ''trace_id_low = ? AND trace_id_high = ?'',
               params = [PUint64 (Low traceID), PUint64 (High traceID)]\<rparr>))"
  by (simp add: GetTrace_builder_def andWhere_def Let_def word_greater_zero_iff)

lemma Where_empty: "Where [] [] rows = Inl (QueryError [])"
  by (simp add: Where_def compile_where_def)

lemma Where_GetTrace_builder:
  "Low traceID \<noteq> 0 \<or> High traceID \<noteq> 0 \<Longrightarrow>
   Where (where' (GetTrace_builder traceID)) (params (GetTrace_builder traceID)) rows =
     Inr (filter (traceID_holds traceID) rows)"
  by (auto simp add: GetTrace_builder_cases Where_def compile_where_def fragment_sem_simps
      traceID_holds_def cong: filter_cong)

lemma Select_spans_simps:
  "Select_spans r None (Inr rows) = (map (Relation_SpanRefs r) rows, None)"
  "Select_spans r (Some (n, e)) (Inr rows) = (take n rows, Some e)"
  "Select_spans r flt (Inl e') = ([], Some e')"
  by (simp_all add: Select_spans_def run_def Select_def)

lemma GetTrace_shape:
  "fst (GetTrace r flt traceID) =
     \<lparr>Spans = map toModelSpan
        (fst (Select_spans r flt
           (Where (where' (GetTrace_builder traceID)) (params (GetTrace_builder traceID))
              (map (Relations r) (spans r))))),
      ProcessMap = map procMapping
        (fst (Select_spans r flt
           (Where (where' (GetTrace_builder traceID)) (params (GetTrace_builder traceID))
              (map (Relations r) (spans r)))))\<rparr>"
  by (simp add: GetTrace_def GetTrace_loop_eq Let_def split: prod.splits)

lemma GetTrace_None:
  "Low traceID \<noteq> 0 \<or> High traceID \<noteq> 0 \<Longrightarrow>
   GetTrace r None traceID =
     (\<lparr>Spans = map toModelSpan (map (Relation_SpanRefs r)
                 (filter (traceID_holds traceID) (map (Relations r) (spans r)))),
       ProcessMap = map procMapping (map (Relation_SpanRefs r)
                 (filter (traceID_holds traceID) (map (Relations r) (spans r))))\<rparr>,
      None)"
  by (simp add: GetTrace_def Where_GetTrace_builder Select_spans_simps GetTrace_loop_eq
      Let_def)

lemma GetTrace_zero:
  "Low traceID = 0 \<Longrightarrow> High traceID = 0 \<Longrightarrow>
   GetTrace r flt traceID = (\<lparr>Spans = [], ProcessMap = []\<rparr>, Some (QueryError []))"
  by (simp add: GetTrace_def GetTrace_builder_cases Where_empty Select_spans_simps Let_def)

lemma Relations_cols [simp]:
  "TraceIDLow (Relations r s) = TraceIDLow s"
  "TraceIDHigh (Relations r s) = TraceIDHigh s"
  "ProcessID (Relations r s) = ProcessID s"
  "StartTime (Relations r s) = StartTime s"
  "Duration (Relations r s) = Duration s"
  "Span_ID (Relations r s) = Span_ID s"
  by (simp_all add: Relations_def)

lemma Relation_SpanRefs_cols [simp]:
  "TraceIDLow (Relation_SpanRefs r s) = TraceIDLow s"
  "TraceIDHigh (Relation_SpanRefs r s) = TraceIDHigh s"
  "ProcessID (Relation_SpanRefs r s) = ProcessID s"
  "StartTime (Relation_SpanRefs r s) = StartTime s"
  "Span_Service (Relation_SpanRefs r s) = Span_Service s"
  by (simp_all add: Relation_SpanRefs_def)

lemma set_update_subset: "set (AList.update k v al) \<subseteq> insert (k, v) (set al)"
  by (induction al) auto

lemma Where_pair:
  "Where ''trace_id_low = ? and trace_id_high = ?'' [PUint64 l, PUint64 h] rows =
     Inr (filter (\<lambda>row. TraceIDLow row = l \<and> TraceIDHigh row = h) rows)"
  by (simp add: Where_def compile_where_def fragment_sem_simps cong: filter_cong)

lemma FindTraces_loop_Cons:
  "FindTraces_loop r flts i (traceID # rest) grouping =
     (case flts i of
        Some (n, e) \<Rightarrow> Inl e
      | None \<Rightarrow> FindTraces_loop r flts (Suc i) rest
                  (FindTraces_spans (trace_rows r traceID) grouping))"
  by (simp add: Where_pair Select_spans_def run_def Select_def trace_rows_def
      split: option.splits)

lemma trace_rows_key: "s \<in> set (trace_rows r traceID) \<Longrightarrow> mTraceID (toModelSpan s) = traceID"
  by (auto simp: trace_rows_def toModelSpan_def)

lemma trace_rows_sorted: "sorted (map StartTime (trace_rows r traceID))"
  by (simp add: trace_rows_def o_def)

lemma Trace_update_eq:
  "(t :: Trace)\<lparr>Spans := a, ProcessMap := b\<rparr> = \<lparr>Spans = a, ProcessMap = b\<rparr>"
  by (cases t) simp

lemma FindTraces_spans_same_key:
  "spns \<noteq> [] \<Longrightarrow> \<forall>s \<in> set spns. mTraceID (toModelSpan s) = k \<Longrightarrow>
   FindTraces_spans spns g =
     AList.update k \<lparr>Spans = Spans (base g k) @ map toModelSpan spns,
                     ProcessMap = ProcessMap (base g k) @ map procMapping spns\<rparr> g"
proof (induction spns arbitrary: g)
  case Nil
  then show ?case by simp
next
  case (Cons s rest)
  show ?case
  proof (cases "rest = []")
    case True
    with Cons.prems show ?thesis
      by (simp add: Let_def base_def Trace_update_eq split: option.splits)
  next
    case False
    let ?t1 = "\<lparr>Spans = Spans (base g k) @ [toModelSpan s],
                ProcessMap = ProcessMap (base g k) @ [procMapping s]\<rparr>"
    have step: "FindTraces_spans (s # rest) g = FindTraces_spans rest (AList.update k ?t1 g)"
      using Cons.prems by (simp add: Let_def base_def Trace_update_eq split: option.splits)
    have b: "base (AList.update k ?t1 g) k = ?t1"
      by (simp add: base_def update_conv')
    from Cons.IH [OF False, of "AList.update k ?t1 g"] Cons.prems
    show ?thesis unfolding step b by simp
  qed
qed

lemma base_fresh: "k \<notin> fst ` set g \<Longrightarrow> base g k = \<lparr>Spans = [], ProcessMap = []\<rparr>"
  using map_of_eq_None_iff [of g k] by (simp add: base_def)

lemma FindTraces_spans_keys:
  "\<forall>s \<in> set spns. mTraceID (toModelSpan s) = k \<Longrightarrow>
   fst ` set (FindTraces_spans spns g) \<subseteq> insert k (fst ` set g)"
proof (cases "spns = []")
  case True then show ?thesis by auto
next
  case False
  assume "\<forall>s \<in> set spns. mTraceID (toModelSpan s) = k"
  from FindTraces_spans_same_key [OF False this] show ?thesis
    by (simp add: dom_update)
qed

lemma FindTraces_spans_sorted:
  assumes key: "\<forall>s \<in> set spns. mTraceID (toModelSpan s) = k"
    and fresh: "k \<notin> fst ` set g"
    and srt: "sorted (map StartTime spns)"
    and inv: "\<forall>t \<in> snd ` set g. spans_sorted t"
  shows "\<forall>t \<in> snd ` set (FindTraces_spans spns g). spans_sorted t"
proof (cases "spns = []")
  case True with inv show ?thesis by simp
next
  case False
  let ?t = "\<lparr>Spans = map toModelSpan spns, ProcessMap = map procMapping spns\<rparr>"
  have eq: "FindTraces_spans spns g = AList.update k ?t g"
    using FindTraces_spans_same_key [OF False key, of g] base_fresh [OF fresh] by simp
  have "spans_sorted ?t"
    using srt by (simp add: spans_sorted_def toModelSpan_def o_def)
  with inv set_update_subset [of k ?t g] show ?thesis unfolding eq by auto
qed

lemma FindTraces_loop_sorted:
  "FindTraces_loop r flts i ids g = Inr g' \<Longrightarrow> distinct ids \<Longrightarrow>
   fst ` set g \<inter> set ids = {} \<Longrightarrow> \<forall>t \<in> snd ` set g. spans_sorted t \<Longrightarrow>
   \<forall>t \<in> snd ` set g'. spans_sorted t"
proof (induction ids arbitrary: i g)
  case Nil
  then show ?case by simp
next
  case (Cons k rest)
  let ?g1 = "FindTraces_spans (trace_rows r k) g"
  from Cons.prems(1) have ok: "flts i = None"
    and rec: "FindTraces_loop r flts (Suc i) rest ?g1 = Inr g'"
    by (auto simp: FindTraces_loop_Cons simp del: FindTraces_loop.simps split: option.splits)
  have key: "\<forall>s \<in> set (trace_rows r k). mTraceID (toModelSpan s) = k"
    using trace_rows_key by blast
  have fresh: "k \<notin> fst ` set g" using Cons.prems(3) by auto
  have inv1: "\<forall>t \<in> snd ` set ?g1. spans_sorted t"
    by (rule FindTraces_spans_sorted [OF key fresh trace_rows_sorted Cons.prems(4)])
  have "fst ` set ?g1 \<subseteq> insert k (fst ` set g)"
    by (rule FindTraces_spans_keys [OF key])
  with Cons.prems(2,3) have disj: "fst ` set ?g1 \<inter> set rest = {}" by auto
  from Cons.prems(2) have "distinct rest" by simp
  from Cons.IH [OF rec this disj inv1] show ?case .
qed

lemma procMapping_id: "pmProcessID (procMapping s) = mProcessID (toModelSpan s)"
  by (simp add: procMapping_def toModelSpan_def)

lemma FindTraces_spans_ids:
  "\<forall>t \<in> snd ` set g. ids_match (ProcessMap t) (Spans t) \<Longrightarrow>
   \<forall>t \<in> snd ` set (FindTraces_spans spns g). ids_match (ProcessMap t) (Spans t)"
proof (induction spns arbitrary: g)
  case Nil
  then show ?case by simp
next
  case (Cons s rest)
  let ?k = "mTraceID (toModelSpan s)"
  let ?t1 = "\<lparr>Spans = Spans (base g ?k) @ [toModelSpan s],
              ProcessMap = ProcessMap (base g ?k) @ [procMapping s]\<rparr>"
  have step: "FindTraces_spans (s # rest) g = FindTraces_spans rest (AList.update ?k ?t1 g)"
    by (simp add: Let_def base_def Trace_update_eq split: option.splits)
  have b: "ids_match (ProcessMap (base g ?k)) (Spans (base g ?k))"
  proof (cases "map_of g ?k")
    case None
    then show ?thesis by (simp add: base_def ids_match_def)
  next
    case (Some t)
    then have "(?k, t) \<in> set g" by (rule map_of_SomeD)
    then have "t \<in> snd ` set g" by force
    with Cons.prems Some show ?thesis by (auto simp: base_def)
  qed
  then have "ids_match (ProcessMap ?t1) (Spans ?t1)"
    by (simp add: ids_match_def procMapping_id)
  with Cons.prems set_update_subset [of ?k ?t1 g]
  have "\<forall>t \<in> snd ` set (AList.update ?k ?t1 g). ids_match (ProcessMap t) (Spans t)"
    by auto
  from Cons.IH [OF this] show ?case unfolding step .
qed

lemma FindTraces_loop_ids:
  "FindTraces_loop r flts i ids g = Inr g' \<Longrightarrow>
   \<forall>t \<in> snd ` set g. ids_match (ProcessMap t) (Spans t) \<Longrightarrow>
   \<forall>t \<in> snd ` set g'. ids_match (ProcessMap t) (Spans t)"
proof (induction ids arbitrary: i g)
  case Nil
  then show ?case by simp
next
  case (Cons k rest)
  from Cons.prems(1)
  have rec: "FindTraces_loop r flts (Suc i) rest (FindTraces_spans (trace_rows r k) g) = Inr g'"
    by (auto simp: FindTraces_loop_Cons simp del: FindTraces_loop.simps split: option.splits)
  from Cons.IH [OF rec FindTraces_spans_ids [OF Cons.prems(2)]] show ?case .
qed

lemma FindTraces_cases:
  "FindTraces r flts query = ([], snd (FindTraces r flts query)) \<and>
     snd (FindTraces r flts query) \<noteq> None \<or>
   (\<exists>g'. FindTraces_loop r flts 1 (fst (FindTraceIDs r (flts 0) query)) [] = Inr g' \<and>
         snd (FindTraceIDs r (flts 0) query) = None \<and>
         FindTraces r flts query = (map snd g', None))"
  by (cases "FindTraceIDs r (flts 0) query")
     (auto simp: FindTraces_def Let_def split: sum.splits)

lemma FindTraces_error_empty:
  "snd (FindTraces r flts query) \<noteq> None \<Longrightarrow> fst (FindTraces r flts query) = []"
  using FindTraces_cases [of r flts query] by (metis fst_conv snd_conv)

lemma FindTraceIDs_eq:
  "criteria_fragments query \<noteq> [] \<Longrightarrow>
   FindTraceIDs r flt query =
     run flt (Limit (100 * (if sint (NumTraces query) \<le> 0 then 10 else NumTraces query))
               (distinct_ids (filter (criteria_holds query) (Join_operations_services r))))"
  by (simp add: FindTraceIDs_def Where_buildTraceWhere Let_def)

lemma FindTraceIDs_no_criteria:
  "criteria_fragments query = [] \<Longrightarrow> FindTraceIDs r flt query = ([], Some (QueryError []))"
  by (simp add: FindTraceIDs_def buildTraceWhere_eq Where_empty run_def Let_def)

lemma distinct_fst_run:
  "(\<And>rows. q = Inr rows \<Longrightarrow> distinct rows) \<Longrightarrow> distinct (fst (run flt q))"
  by (cases q; cases flt) (auto simp: run_def Select_def)

lemma FindTraceIDs_distinct: "distinct (fst (FindTraceIDs r flt query))"
proof (cases "criteria_fragments query = []")
  case True
  then show ?thesis by (simp add: FindTraceIDs_no_criteria)
next
  case False
  show ?thesis
    unfolding FindTraceIDs_eq [OF False]
    by (rule distinct_fst_run) (auto simp: Limit_def distinct_ids_def split: if_splits)
qed

lemma length_fst_run:
  "(\<And>rows. q = Inr rows \<Longrightarrow> length rows \<le> n) \<Longrightarrow> length (fst (run flt q)) \<le> n"
  by (cases q; cases flt) (auto simp: run_def Select_def)

lemma sint_100_times:
  fixes n :: "64 word"
  assumes "0 < sint n" "sint n \<le> 92233720368547758"
  shows "sint (100 * n) = 100 * sint n"
proof -
  have "sint (100 * n) = signed_take_bit 63 (100 * sint n)"
    by (simp add: sint_word_ariths)
  also have "\<dots> = 100 * sint n"
    using assms by (intro signed_take_bit_int_eq_self) simp_all
  finally show ?thesis .
qed

lemma Limit_length:
  fixes n :: "64 word"
  assumes "0 < sint n" "sint n \<le> 92233720368547758" "Limit (100 * n) xs = Inr rows"
  shows "length rows \<le> 100 * nat (sint n)"
proof -
  have s: "sint (100 * n) = 100 * sint n" by (rule sint_100_times [OF assms(1,2)])
  then have "100 * n \<noteq> 0" using assms(1) by auto
  with assms(3) s assms(1) have "rows = take (nat (100 * sint n)) xs"
    by (auto simp: Limit_def split: if_splits)
  then show ?thesis using assms(1) by (simp add: nat_mult_distrib)
qed

lemma FindTraceIDs_bounded:
  assumes "sint (NumTraces query) \<le> 92233720368547758"
  shows "length (fst (FindTraceIDs r flt query)) \<le>
           100 * (if sint (NumTraces query) \<le> 0 then 10 else nat (sint (NumTraces query)))"
proof (cases "criteria_fragments query = []")
  case True
  then show ?thesis by (simp add: FindTraceIDs_no_criteria)
next
  case ne: False
  show ?thesis
  proof (cases "sint (NumTraces query) \<le> 0")
    case True
    have "length (fst (FindTraceIDs r flt query)) \<le> 100 * nat (sint (10 :: 64 word))"
      unfolding FindTraceIDs_eq [OF ne] using True
      by (simp only: if_True) (rule length_fst_run, rule Limit_length, simp_all)
    with True show ?thesis by simp
  next
    case False
    have "length (fst (FindTraceIDs r flt query)) \<le> 100 * nat (sint (NumTraces query))"
      unfolding FindTraceIDs_eq [OF ne] using False assms
      by (simp only: if_False) (rule length_fst_run, rule Limit_length, simp_all)
    with False show ?thesis by simp
  qed
qed

lemma FindTraces_loop_fails:
  "k < length ids \<Longrightarrow> \<forall>j<k. flts (i + j) = None \<Longrightarrow> flts (i + k) = Some (n, e) \<Longrightarrow>
   FindTraces_loop r flts i ids g = Inl e"
proof (induction ids arbitrary: i k g)
  case Nil
  then show ?case by simp
next
  case (Cons t rest)
  show ?case
  proof (cases k)
    case 0
    with Cons.prems show ?thesis
      by (simp add: FindTraces_loop_Cons del: FindTraces_loop.simps)
  next
    case (Suc k')
    with Cons.prems have ok: "flts i = None" by force
    have "FindTraces_loop r flts (Suc i) rest (FindTraces_spans (trace_rows r t) g) = Inl e"
    proof (rule Cons.IH [of k'])
      show "k' < length rest" using Cons.prems(1) Suc by simp
      show "\<forall>j<k'. flts (Suc i + j) = None"
      proof (intro allI impI)
        fix j assume "j < k'"
        then have "Suc j < k" using Suc by simp
        with Cons.prems(2) have "flts (i + Suc j) = None" by blast
        then show "flts (Suc i + j) = None" by simp
      qed
      show "flts (Suc i + k') = Some (n, e)" using Cons.prems(3) Suc by simp
    qed
    with ok show ?thesis by (simp add: FindTraces_loop_Cons del: FindTraces_loop.simps)
  qed
qed

lemma FindTraces_ids:
  assumes "t \<in> set (fst (FindTraces r flts query))"
  shows "ids_match (ProcessMap t) (Spans t)"
proof -
  from FindTraces_cases [of r flts query] assms
  obtain g' where g: "FindTraces_loop r flts 1 (fst (FindTraceIDs r (flts 0) query)) [] = Inr g'"
    and eq: "FindTraces r flts query = (map snd g', None)"
    by (metis empty_iff fst_conv list.set(1))
  from FindTraces_loop_ids [OF g] have "\<forall>t \<in> snd ` set g'. ids_match (ProcessMap t) (Spans t)"
    by simp
  with assms eq show ?thesis by auto
qed

lemma FindTraces_sorted:
  assumes "t \<in> set (fst (FindTraces r flts query))"
  shows "spans_sorted t"
proof -
  from FindTraces_cases [of r flts query] assms
  obtain g' where g: "FindTraces_loop r flts 1 (fst (FindTraceIDs r (flts 0) query)) [] = Inr g'"
    and eq: "FindTraces r flts query = (map snd g', None)"
    by (metis empty_iff fst_conv list.set(1))
  have "\<forall>t \<in> snd ` set g'. spans_sorted t"
    by (rule FindTraces_loop_sorted [OF g FindTraceIDs_distinct]) simp_all
  with assms eq show ?thesis by auto
qed

lemma traceID_holds_Relations: "traceID_holds traceID (Relations r s) = traceID_holds traceID s"
  by (simp add: traceID_holds_def)

lemma length_filter_Relations:
  "length (filter (traceID_holds traceID) (map (Relations r) xs)) =
   length (filter (traceID_holds traceID) xs)"
  by (induction xs) (simp_all add: traceID_holds_Relations)

text \<open>
  C1 as the spec states it: the process map has one entry per distinct process identifier.
  In the example store the trace 7/9 has two spans with the one process identifier
  \<open>p1\<close>, and GetTrace returns a process map of two entries.
\<close>

theorem process_map_per_distinct_process_counterexample:
  "length (Spans (fst (GetTrace trace_db None \<lparr>Low = 7, High = 9\<rparr>))) = 2 \<and>
   length (remdups (map mProcessID
     (Spans (fst (GetTrace trace_db None \<lparr>Low = 7, High = 9\<rparr>))))) = 1 \<and>
   length (ProcessMap (fst (GetTrace trace_db None \<lparr>Low = 7, High = 9\<rparr>))) = 2"
  by code_simp

text \<open>
  C1, amended. GetTrace and FindTraces append one process-map entry for every span: the
  process map of a returned trace has as many entries as the trace has spans, and its
  process identifiers are those of the spans, in the same order and with repetitions.
  For an identifier with a half that is not zero and without a storage error, GetTrace
  returns one span per stored row that its predicate admits.
\<close>

theorem process_map_one_entry_per_span:
  "length (ProcessMap (fst (GetTrace r flt traceID))) =
     length (Spans (fst (GetTrace r flt traceID))) \<and>
   map pmProcessID (ProcessMap (fst (GetTrace r flt traceID))) =
     map mProcessID (Spans (fst (GetTrace r flt traceID))) \<and>
   (Low traceID \<noteq> 0 \<or> High traceID \<noteq> 0 \<longrightarrow>
      length (Spans (fst (GetTrace r None traceID))) =
        length (filter (traceID_holds traceID) (spans r))) \<and>
   (\<forall>t \<in> set (fst (FindTraces r flts query)).
      length (ProcessMap t) = length (Spans t) \<and>
      map pmProcessID (ProcessMap t) = map mProcessID (Spans t))"
proof -
  have a: "length (ProcessMap (fst (GetTrace r flt traceID))) =
     length (Spans (fst (GetTrace r flt traceID)))"
    by (simp add: GetTrace_shape)
  have b: "map pmProcessID (ProcessMap (fst (GetTrace r flt traceID))) =
     map mProcessID (Spans (fst (GetTrace r flt traceID)))"
    by (simp add: GetTrace_shape procMapping_id)
  have c: "length (Spans (fst (GetTrace r None traceID))) =
     length (filter (traceID_holds traceID) (spans r))"
    if "Low traceID \<noteq> 0 \<or> High traceID \<noteq> 0"
    using length_filter_Relations [of traceID r "spans r"]
    by (simp add: GetTrace_None [OF that])
  have d: "\<forall>t \<in> set (fst (FindTraces r flts query)).
      length (ProcessMap t) = length (Spans t) \<and>
      map pmProcessID (ProcessMap t) = map mProcessID (Spans t)"
  proof
    fix t assume "t \<in> set (fst (FindTraces r flts query))"
    then have m: "map pmProcessID (ProcessMap t) = map mProcessID (Spans t)"
      using FindTraces_ids by (simp add: ids_match_def)
    then have "length (ProcessMap t) = length (Spans t)"
      by (rule map_eq_imp_length_eq)
    with m show "length (ProcessMap t) = length (Spans t) \<and>
      map pmProcessID (ProcessMap t) = map mProcessID (Spans t)" by simp
  qed
  from a b c d show ?thesis by blast
qed

theorem process_map_one_entry_per_span_witness:
  "trace_7_9 \<in> set (fst (FindTraces trace_db (fail_at 3) svc_query)) \<and>
   map pmProcessID (ProcessMap trace_7_9) = [''p1'', ''p1''] \<and>
   map mProcessID (Spans trace_7_9) = [''p1'', ''p1''] \<and>
   Low \<lparr>Low = 7, High = 9 :: 64 word\<rparr> \<noteq> 0 \<and>
   length (Spans (fst (GetTrace trace_db None \<lparr>Low = 7, High = 9\<rparr>))) = 2 \<and>
   map pmProcessID (ProcessMap (fst (GetTrace trace_db None \<lparr>Low = 7, High = 9\<rparr>))) =
     [''p1'', ''p1'']"
proof -
  have e: "trace_7_9 \<in> set (fst (FindTraces trace_db (fail_at 3) svc_query))"
    "map mProcessID (Spans trace_7_9) = [''p1'', ''p1'']"
    "Low \<lparr>Low = 7, High = 9 :: 64 word\<rparr> \<noteq> 0"
    "length (filter (traceID_holds \<lparr>Low = 7, High = 9\<rparr>) (spans trace_db)) = 2"
    "map mProcessID (Spans (fst (GetTrace trace_db None \<lparr>Low = 7, High = 9\<rparr>))) =
     [''p1'', ''p1'']"
    by code_simp+
  from process_map_one_entry_per_span
         [of trace_db None "\<lparr>Low = 7, High = 9\<rparr>" "fail_at 3" svc_query] e
  show ?thesis by simp
qed

text \<open>
  C10 as stated: for the identifier 0/0 GetTrace returns every span in storage. The
  builder is empty there, the storage rejects the query with the empty predicate, and
  GetTrace returns the error and a trace without spans, whatever the store holds.
\<close>

theorem GetTrace_zero_identifier_counterexample:
  "length (spans trace_db) = 3 \<and>
   GetTrace_builder \<lparr>Low = 0, High = 0\<rparr> = \<lparr>where' = [], params = []\<rparr> \<and>
   GetTrace trace_db None \<lparr>Low = 0, High = 0\<rparr> =
     (\<lparr>Spans = [], ProcessMap = []\<rparr>, Some (QueryError []))"
  by code_simp

text \<open>
  C10, amended. GetTrace compares a half of the trace identifier only when that half is
  not zero. With both halves zero the builder holds no predicate and no parameter; the
  query is sent with the empty predicate, fails, and GetTrace returns the error with an
  empty trace. With exactly one zero half only the other half is compared, so that all
  spans agreeing on it are returned together in the one trace.
\<close>

theorem GetTrace_filters_nonzero_halves:
  "(Low traceID = 0 \<and> High traceID = 0 \<longrightarrow>
      GetTrace_builder traceID = \<lparr>where' = [], params = []\<rparr> \<and>
      GetTrace r flt traceID = (\<lparr>Spans = [], ProcessMap = []\<rparr>, Some (QueryError []))) \<and>
   (Low traceID \<noteq> 0 \<and> High traceID = 0 \<longrightarrow>
      GetTrace_builder traceID =
        \<lparr>where' = ''trace_id_low = ?'', params = [PUint64 (Low traceID)]\<rparr> \<and>
      GetTrace r None traceID =
        (\<lparr>Spans = map toModelSpan (map (Relation_SpanRefs r)
             (filter (\<lambda>s. TraceIDLow s = Low traceID) (map (Relations r) (spans r)))),
          ProcessMap = map procMapping (map (Relation_SpanRefs r)
             (filter (\<lambda>s. TraceIDLow s = Low traceID) (map (Relations r) (spans r))))\<rparr>,
         None)) \<and>
   (Low traceID = 0 \<and> High traceID \<noteq> 0 \<longrightarrow>
      GetTrace_builder traceID =
        \<lparr>where' = ''trace_id_high = ?'', params = [PUint64 (High traceID)]\<rparr> \<and>
      GetTrace r None traceID =
        (\<lparr>Spans = map toModelSpan (map (Relation_SpanRefs r)
             (filter (\<lambda>s. TraceIDHigh s = High traceID) (map (Relations r) (spans r)))),
          ProcessMap = map procMapping (map (Relation_SpanRefs r)
             (filter (\<lambda>s. TraceIDHigh s = High traceID) (map (Relations r) (spans r))))\<rparr>,
         None))"
proof -
  have z: "GetTrace_builder traceID = \<lparr>where' = [], params = []\<rparr> \<and>
      GetTrace r flt traceID = (\<lparr>Spans = [], ProcessMap = []\<rparr>, Some (QueryError []))"
    if "Low traceID = 0" "High traceID = 0"
    using that by (simp add: GetTrace_zero GetTrace_builder_cases)
  have l: "GetTrace_builder traceID =
        \<lparr>where' = ''trace_id_low = ?'', params = [PUint64 (Low traceID)]\<rparr> \<and>
      GetTrace r None traceID =
        (\<lparr>Spans = map toModelSpan (map (Relation_SpanRefs r)
             (filter (\<lambda>s. TraceIDLow s = Low traceID) (map (Relations r) (spans r)))),
          ProcessMap = map procMapping (map (Relation_SpanRefs r)
             (filter (\<lambda>s. TraceIDLow s = Low traceID) (map (Relations r) (spans r))))\<rparr>,
         None)"
    if "Low traceID \<noteq> 0" "High traceID = 0"
    using that by (simp add: GetTrace_None GetTrace_builder_cases traceID_holds_def
        cong: filter_cong)
  have h: "GetTrace_builder traceID =
        \<lparr>where' = ''trace_id_high = ?'', params = [PUint64 (High traceID)]\<rparr> \<and>
      GetTrace r None traceID =
        (\<lparr>Spans = map toModelSpan (map (Relation_SpanRefs r)
             (filter (\<lambda>s. TraceIDHigh s = High traceID) (map (Relations r) (spans r)))),
          ProcessMap = map procMapping (map (Relation_SpanRefs r)
             (filter (\<lambda>s. TraceIDHigh s = High traceID) (map (Relations r) (spans r))))\<rparr>,
         None)"
    if "Low traceID = 0" "High traceID \<noteq> 0"
    using that by (simp add: GetTrace_None GetTrace_builder_cases traceID_holds_def
        cong: filter_cong)
  from z l h show ?thesis by blast
qed

theorem GetTrace_filters_nonzero_halves_witness:
  "GetTrace trace_db None \<lparr>Low = 0, High = 0\<rparr> =
     (\<lparr>Spans = [], ProcessMap = []\<rparr>, Some (QueryError [])) \<and>
   map mTraceID (Spans (fst (GetTrace trace_db None \<lparr>Low = 7, High = 0\<rparr>))) =
     [\<lparr>Low = 7, High = 9\<rparr>, \<lparr>Low = 7, High = 9\<rparr>, \<lparr>Low = 7, High = 5\<rparr>] \<and>
   map mTraceID (Spans (fst (GetTrace trace_db None \<lparr>Low = 0, High = 5\<rparr>))) =
     [\<lparr>Low = 7, High = 5\<rparr>]"
  using GetTrace_filters_nonzero_halves [of "\<lparr>Low = 0, High = 0\<rparr>" trace_db None]
        GetTrace_filters_nonzero_halves [of "\<lparr>Low = 7, High = 0\<rparr>" trace_db None]
        GetTrace_filters_nonzero_halves [of "\<lparr>Low = 0, High = 5\<rparr>" trace_db None]
  by (simp add: trace_db_def span_row_def toModelSpan_def Relations_def Relation_SpanRefs_def)

subsection \<open>Ordering, bounds, failures and the filter builder\<close>

text \<open>
  C7. In every trace returned by FindTraces the spans are in ascending order of start
  time: the start times along the span list are sorted, so a span that starts strictly
  earlier than another span of the same trace stands before it.
\<close>

theorem FindTraces_spans_ordered:
  assumes "t \<in> set (fst (FindTraces r flts query))"
  shows "sorted (map mStartTime (Spans t)) \<and>
         (\<forall>i j. i < length (Spans t) \<and> j < length (Spans t) \<and>
                mStartTime (Spans t ! i) < mStartTime (Spans t ! j) \<longrightarrow> i < j)"
proof -
  have s: "sorted (map mStartTime (Spans t))"
    using FindTraces_sorted [OF assms] by (simp only: spans_sorted_def)
  have "i < j" if "i < length (Spans t)" "j < length (Spans t)"
    "mStartTime (Spans t ! i) < mStartTime (Spans t ! j)" for i j
  proof (rule ccontr)
    assume "\<not> i < j"
    then have "j \<le> i" by simp
    with s that(1) have "map mStartTime (Spans t) ! j \<le> map mStartTime (Spans t) ! i"
      by (intro sorted_nth_mono) simp_all
    with that show False by simp
  qed
  with s show ?thesis by blast
qed

theorem FindTraces_spans_ordered_witness:
  "trace_7_9 \<in> set (fst (FindTraces trace_db (fail_at 3) svc_query)) \<and>
   map StartTime (spans trace_db) = [100, 50, 70] \<and>
   map mStartTime (Spans trace_7_9) = [50, 100] \<and>
   sorted (map mStartTime (Spans trace_7_9))"
proof -
  have e: "trace_7_9 \<in> set (fst (FindTraces trace_db (fail_at 3) svc_query))"
    "map StartTime (spans trace_db) = [100, 50, 70]"
    "map mStartTime (Spans trace_7_9) = [50, 100]"
    by code_simp+
  from FindTraces_spans_ordered [OF e(1)] e show ?thesis by blast
qed

text \<open>
  C3 as the spec states it: the result is bounded by the requested count. With
  \<open>NumTraces = 1\<close> and an upper duration bound of 1 ns (for which the code emits
  \<open>duration > ?\<close>), FindTraceIDs returns both trace identifiers of the example store
  and no error.
\<close>

theorem FindTraceIDs_bounded_by_numTraces_counterexample:
  "sint (NumTraces durmax_query) = 1 \<and>
   DurationMax durmax_query = 1 \<and>
   snd (FindTraceIDs trace_db None durmax_query) = None \<and>
   length (fst (FindTraceIDs trace_db None durmax_query)) = 2 \<and>
   \<not> length (fst (FindTraceIDs trace_db None durmax_query))
       \<le> nat (sint (NumTraces durmax_query))"
  by code_simp

text \<open>
  C3, amended. FindTraceIDs returns no trace identifier twice, and the length of its
  result is at most 100 times the requested count (10 when \<open>NumTraces\<close> is not positive),
  as long as 100 times the count fits the 64-bit \<open>int\<close>. The witness reaches the bound:
  of 101 traces that match, 100 are returned for \<open>NumTraces = 1\<close>.
\<close>

theorem FindTraceIDs_distinct_bounded:
  "distinct (fst (FindTraceIDs r flt query)) \<and>
   (sint (NumTraces query) \<le> 92233720368547758 \<longrightarrow>
      length (fst (FindTraceIDs r flt query)) \<le>
        100 * (if sint (NumTraces query) \<le> 0 then 10 else nat (sint (NumTraces query))))"
  using FindTraceIDs_distinct [of r flt query] FindTraceIDs_bounded [of query r flt]
  by blast

theorem FindTraceIDs_distinct_bounded_witness:
  "sint (NumTraces durmax_query) \<le> 92233720368547758 \<and>
   length (spans many_db) = 101 \<and>
   distinct (fst (FindTraceIDs many_db None durmax_query)) \<and>
   length (fst (FindTraceIDs many_db None durmax_query)) = 100"
proof -
  have e: "sint (NumTraces durmax_query) \<le> 92233720368547758"
    "length (spans many_db) = 101"
    "length (fst (FindTraceIDs many_db None durmax_query)) = 100"
    by code_simp+
  from FindTraceIDs_distinct_bounded [of many_db None durmax_query] e
  show ?thesis by simp
qed

text \<open>
  C6 as the spec states it: the traces assembled before the failure are returned with the
  error. For the service \<open>a\<close> FindTraceIDs finds two traces, the query for the first
  of them succeeds and the query for the second fails; FindTraces returns the error and
  no trace, although without the failure it returns two.
\<close>

theorem FindTraces_partial_batch_counterexample:
  "snd (FindTraceIDs trace_db (fail_at 2 0) svc_query) = None \<and>
   length (fst (FindTraceIDs trace_db (fail_at 2 0) svc_query)) = 2 \<and>
   fail_at 2 1 = None \<and>
   fail_at 2 2 = Some (0, StorageError ''down'') \<and>
   length (fst (FindTraces trace_db (fail_at 3) svc_query)) = 2 \<and>
   FindTraces trace_db (fail_at 2) svc_query = ([], Some (StorageError ''down''))"
  by code_simp

text \<open>
  C6, amended. Whenever FindTraces returns an error it returns the empty collection with
  it; in particular, when the queries of the first \<open>k\<close> trace identifiers succeed and
  the next one fails with error \<open>e\<close>, FindTraces returns \<open>e\<close> and no trace: the traces
  assembled so far stay in \<open>grouping\<close> and are dropped.
\<close>

theorem FindTraces_failure_returns_no_trace:
  "(snd (FindTraces r flts query) \<noteq> None \<longrightarrow> fst (FindTraces r flts query) = []) \<and>
   (FindTraceIDs r (flts 0) query = (traceIDs, None) \<and> k < length traceIDs \<and>
    (\<forall>j<k. flts (Suc j) = None) \<and> flts (Suc k) = Some (n, e) \<longrightarrow>
      FindTraces r flts query = ([], Some e))"
proof -
  have a: "snd (FindTraces r flts query) \<noteq> None \<longrightarrow> fst (FindTraces r flts query) = []"
    using FindTraces_error_empty by blast
  have b: "FindTraces r flts query = ([], Some e)"
    if ids: "FindTraceIDs r (flts 0) query = (traceIDs, None)" and k: "k < length traceIDs"
      and ok: "\<forall>j<k. flts (Suc j) = None" and bad: "flts (Suc k) = Some (n, e)"
  proof -
    have "FindTraces_loop r flts 1 traceIDs [] = Inl e"
      by (rule FindTraces_loop_fails [OF k, of flts 1 n e]) (use ok bad in simp_all)
    with ids show ?thesis by (simp add: FindTraces_def)
  qed
  from a b show ?thesis by blast
qed

theorem FindTraces_failure_returns_no_trace_witness:
  "snd (FindTraceIDs trace_db (fail_at 2 0) svc_query) = None \<and>
   (1::nat) < length (fst (FindTraceIDs trace_db (fail_at 2 0) svc_query)) \<and>
   fail_at 2 (Suc 0) = None \<and>
   fail_at 2 (Suc 1) = Some (0, StorageError ''down'') \<and>
   FindTraces trace_db (fail_at 2) svc_query = ([], Some (StorageError ''down''))"
proof -
  have e: "snd (FindTraceIDs trace_db (fail_at 2 0) svc_query) = None"
    "(1::nat) < length (fst (FindTraceIDs trace_db (fail_at 2 0) svc_query))"
    "fail_at 2 (Suc 0) = None" "fail_at 2 (Suc 1) = Some (0, StorageError ''down'')"
    by code_simp+
  have i: "FindTraceIDs trace_db (fail_at 2 0) svc_query =
             (fst (FindTraceIDs trace_db (fail_at 2 0) svc_query), None)"
    using e(1) by (simp add: prod_eq_iff)
  have "\<forall>j<1. fail_at 2 (Suc j) = None" using e(3) by simp
  with FindTraces_failure_returns_no_trace
         [of trace_db "fail_at 2" svc_query
             "fst (FindTraceIDs trace_db (fail_at 2 0) svc_query)" 1 0 "StorageError ''down''"]
    i e
  have "FindTraces trace_db (fail_at 2) svc_query = ([], Some (StorageError ''down''))"
    by blast
  with e show ?thesis by blast
qed

text \<open>
  C8 as the spec states it: a fragment is emitted if and only if the criterion is
  non-zero, and an empty criteria set yields an unconstrained predicate. A lower duration
  bound of -1 ns is not zero, and buildTraceWhere emits nothing for it; and for the empty
  criteria set the builder holds the empty string, which the storage does not read as a
  predicate that admits every row: it rejects the query.
\<close>

theorem buildTraceWhere_nonzero_counterexample:
  "DurationMin neg_query \<noteq> 0 \<and>
   buildTraceWhere neg_query = \<lparr>where' = [], params = []\<rparr> \<and>
   buildTraceWhere (no_criteria 0) = \<lparr>where' = [], params = []\<rparr> \<and>
   Where (where' (buildTraceWhere (no_criteria 0))) (params (buildTraceWhere (no_criteria 0)))
     (spans trace_db) = Inl (QueryError [])"
  by code_simp

text \<open>
  C8, amended. buildTraceWhere emits a fragment exactly for a service name that is not
  empty, an operation name that is not empty, a start-time lower bound after the zero
  time, and a duration bound greater than zero (\<open>criteria_fragments\<close>); the predicate
  string is these fragments joined with AND, in the order service, operation, start
  time, lower and upper duration bound, with the parameters in the same order; when at
  least one fragment is emitted the storage admits exactly the rows for which every
  emitted comparison holds; and with no criterion present the builder holds the empty
  string and no parameter.
\<close>

theorem buildTraceWhere_fragments:
  "where' (buildTraceWhere query) = join_AND (map fst (criteria_fragments query)) \<and>
   params (buildTraceWhere query) = map snd (criteria_fragments query) \<and>
   (criteria_fragments query \<noteq> [] \<longrightarrow>
      Where (where' (buildTraceWhere query)) (params (buildTraceWhere query)) rows =
        Inr (filter (criteria_holds query) rows)) \<and>
   (qServiceName query = [] \<and> qOperationName query = [] \<and> StartTimeMin query \<le> 0 \<and>
    DurationMin query \<le> 0 \<and> DurationMax query \<le> 0 \<longrightarrow>
      buildTraceWhere query = \<lparr>where' = [], params = []\<rparr>)"
proof -
  have "buildTraceWhere query = \<lparr>where' = [], params = []\<rparr>"
    if "qServiceName query = []" "qOperationName query = []" "StartTimeMin query \<le> 0"
      "DurationMin query \<le> 0" "DurationMax query \<le> 0"
    using that by (simp add: buildTraceWhere_def)
  with buildTraceWhere_eq [of query] Where_buildTraceWhere [of query rows]
  show ?thesis by blast
qed

theorem buildTraceWhere_fragments_witness:
  "criteria_fragments svc_dur_query \<noteq> [] \<and>
   buildTraceWhere svc_dur_query =
     \<lparr>where' = ''service.service_name = ? AND duration < ?'',
      params = [PString ''a'', PDuration 5]\<rparr> \<and>
   join_AND (map fst (criteria_fragments svc_dur_query)) =
     ''service.service_name = ? AND duration < ?'' \<and>
   Where (where' (buildTraceWhere svc_dur_query)) (params (buildTraceWhere svc_dur_query))
     (Join_operations_services trace_db) =
     Inr (filter (criteria_holds svc_dur_query) (Join_operations_services trace_db)) \<and>
   DurationMin (no_criteria 0) \<le> 0 \<and>
   buildTraceWhere (no_criteria 0) = \<lparr>where' = [], params = []\<rparr>"
proof -
  have e: "buildTraceWhere svc_dur_query =
     \<lparr>where' = ''service.service_name = ? AND duration < ?'',
      params = [PString ''a'', PDuration 5]\<rparr>"
    "qServiceName (no_criteria 0) = []" "qOperationName (no_criteria 0) = []"
    "StartTimeMin (no_criteria 0) \<le> 0" "DurationMin (no_criteria 0) \<le> 0"
    "DurationMax (no_criteria 0) \<le> 0" "criteria_fragments svc_dur_query \<noteq> []"
    by code_simp+
  from buildTraceWhere_fragments [of svc_dur_query "Join_operations_services trace_db"]
  have "join_AND (map fst (criteria_fragments svc_dur_query)) =
          where' (buildTraceWhere svc_dur_query)"
    by simp
  then have j: "join_AND (map fst (criteria_fragments svc_dur_query)) =
          ''service.service_name = ? AND duration < ?''"
    unfolding e(1) by simp
  from buildTraceWhere_fragments [of svc_dur_query "Join_operations_services trace_db"] e(7)
  have w: "Where (where' (buildTraceWhere svc_dur_query)) (params (buildTraceWhere svc_dur_query))
     (Join_operations_services trace_db) =
     Inr (filter (criteria_holds svc_dur_query) (Join_operations_services trace_db))"
    by blast
  from buildTraceWhere_fragments [of "no_criteria 0" "[]"] e(2-6)
  have b: "buildTraceWhere (no_criteria 0) = \<lparr>where' = [], params = []\<rparr>"
    by blast
  from e(1) e(7) j e(5) w b show ?thesis by blast
qed

text \<open>
  C4. The claim asks for the spans whose duration lies within the bounds. For the lower
  bound of 5 ns buildTraceWhere emits the comparison \<open>duration < ?\<close>: in the example
  store (durations 10, 3 and 20) FindTraceIDs finds trace 7/9 through its span of 3 ns
  and does not find trace 7/5, whose only span lasts 20 ns.
\<close>

theorem duration_bounds_inverted:
  "map Duration (spans trace_db) = [10, 3, 20] \<and>
   buildTraceWhere dur_query = \<lparr>where' = ''duration < ?'', params = [PDuration 5]\<rparr> \<and>
   FindTraceIDs trace_db None dur_query = ([\<lparr>Low = 7, High = 9\<rparr>], None)"
  by code_simp

subsection \<open>Dependencies\<close>

lemma concat_no_key:
  "k \<notin> key ` set xs \<Longrightarrow> concat (map (\<lambda>y. if key y = k then g y else []) xs) = []"
  by (induction xs) auto

lemma concat_unique_key:
  assumes "distinct (map key xs)" "k \<in> key ` set xs"
  shows "\<exists>x \<in> set xs. key x = k \<and>
           (\<forall>g. concat (map (\<lambda>y. if key y = k then g y else []) xs) = g x)"
  using assms
proof (induction xs)
  case Nil
  then show ?case by simp
next
  case (Cons a xs)
  show ?case
  proof (cases "key a = k")
    case True
    with Cons.prems(1) have "k \<notin> key ` set xs" by auto
    then have "\<forall>g. concat (map (\<lambda>y. if key y = k then g y else []) xs) = []"
      using concat_no_key by fast
    with True show ?thesis by auto
  next
    case False
    with Cons.prems have "distinct (map key xs)" "k \<in> key ` set xs" by auto
    from Cons.IH [OF this] False show ?thesis by auto
  qed
qed

lemma GetDependencies_joined_ref:
  assumes "referential_integrity r" "ref \<in> set (span_refs r)"
  shows "\<exists>row. GetDependencies_joined (r\<lparr>span_refs := [ref]\<rparr>) = [row]"
proof -
  from assms have ds: "distinct (map Span_ID (spans r))"
    and dv: "distinct (map Service_ID (services r))"
    and src: "SpanRef_ID ref \<in> Span_ID ` set (spans r)"
    and chd: "ChildSpanID ref \<in> Span_ID ` set (spans r)"
    and svc: "\<forall>s \<in> set (spans r). ServiceID s \<in> Service_ID ` set (services r)"
    by (auto simp: referential_integrity_def)
  from concat_unique_key [OF ds src] obtain s0 where s0: "s0 \<in> set (spans r)"
    and e1: "\<And>g :: _ \<Rightarrow> (nat \<times> string \<times> nat \<times> string) list. concat (map (\<lambda>y. if Span_ID y = SpanRef_ID ref then g y else []) (spans r)) = g s0"
    by blast
  from svc s0 have "ServiceID s0 \<in> Service_ID ` set (services r)" by blast
  from concat_unique_key [OF dv this] obtain v0 where
    e2: "\<And>g :: _ \<Rightarrow> (nat \<times> string \<times> nat \<times> string) list. concat (map (\<lambda>y. if Service_ID y = ServiceID s0 then g y else []) (services r)) = g v0"
    by blast
  from concat_unique_key [OF ds chd] obtain c0 where
    e3: "\<And>g :: _ \<Rightarrow> (nat \<times> string \<times> nat \<times> string) list. concat (map (\<lambda>y. if Span_ID y = ChildSpanID ref then g y else []) (spans r)) = g c0"
    by blast
  show ?thesis
    by (simp add: GetDependencies_joined_def e1 e2 e3)
qed

lemma GetDependencies_joined_split:
  "GetDependencies_joined r =
     concat (map (\<lambda>ref. GetDependencies_joined (r\<lparr>span_refs := [ref]\<rparr>)) (span_refs r))"
  by (simp add: GetDependencies_joined_def cong: if_cong)

lemma GetDependencies_joined_length:
  assumes "referential_integrity r"
  shows "length (GetDependencies_joined r) = length (span_refs r)"
proof -
  have one: "length (GetDependencies_joined (r\<lparr>span_refs := [ref]\<rparr>)) = 1"
    if "ref \<in> set (span_refs r)" for ref
    using GetDependencies_joined_ref [OF assms that] by auto
  have "length (GetDependencies_joined r) =
          sum_list (map (\<lambda>ref. length (GetDependencies_joined (r\<lparr>span_refs := [ref]\<rparr>)))
                     (span_refs r))"
    by (subst GetDependencies_joined_split) (simp add: length_concat o_def)
  also have "\<dots> = sum_list (map (\<lambda>ref. 1) (span_refs r))"
    using one by (simp cong: map_cong)
  also have "\<dots> = length (span_refs r)"
    by (simp add: sum_list_triv)
  finally show ?thesis .
qed

lemma sum_list_count_remdups: "sum_list (map (count_list xs) (remdups xs)) = length xs"
proof -
  have "sum_list (map (count_list xs) (remdups xs)) = sum (count_list xs) (set (remdups xs))"
    by (rule sum_list_distinct_conv_sum_set) simp
  also have "\<dots> = length xs"
    using sum_count_set [of xs "set xs"] by simp
  finally show ?thesis .
qed

lemma GetDependencies_links:
  "fst (GetDependencies r None endTs lookback) =
     map (\<lambda>(parent, parent_name, child, child_name).
            \<lparr>Parent = decimal parent, Child = decimal child,
             CallCount = of_nat (count_list (GetDependencies_joined r)
                                   (parent, parent_name, child, child_name)),
             Source = []\<rparr>)
         (remdups (GetDependencies_joined r))"
  by (simp add: GetDependencies_def Select_def Let_def)

lemma GetDependencies_call_counts:
  assumes "length (GetDependencies_joined r) < 2 ^ 64"
  shows "map (\<lambda>l. unat (CallCount l)) (fst (GetDependencies r None endTs lookback)) =
           map (count_list (GetDependencies_joined r)) (remdups (GetDependencies_joined r))"
proof -
  have "unat (of_nat (count_list (GetDependencies_joined r) k) :: 64 word) =
          count_list (GetDependencies_joined r) k" for k
  proof -
    have "count_list (GetDependencies_joined r) k \<le> length (GetDependencies_joined r)"
      by (rule count_le_length)
    with assms have "count_list (GetDependencies_joined r) k < 2 ^ 64" by simp
    then show ?thesis by (simp add: unat_of_nat)
  qed
  then show ?thesis
    by (simp add: GetDependencies_links o_def split_def)
qed

lemma GetDependencies_no_refs:
  "span_refs r = [] \<Longrightarrow> GetDependencies r None endTs lookback = ([], None)"
  by (simp add: GetDependencies_def GetDependencies_joined_def Select_def)

lemma GetDependencies_window:
  "GetDependencies r flt endTs lookback = GetDependencies r flt endTs' lookback'"
  by (simp add: GetDependencies_def)

text \<open>
  C5 as the spec states it: edges outside the window contribute nothing. The spans of the
  example store start at 100, 50 and 70; the window ending at 10 with lookback 5 holds
  none of them, and GetDependencies still returns the link of the stored edge, with call
  count 1.
\<close>

theorem GetDependencies_window_counterexample:
  "map StartTime (spans trace_db) = [100, 50, 70] \<and>
   GetDependencies trace_db None 10 5 =
     ([\<lparr>Parent = ''1'', Child = ''2'', CallCount = 1, Source = []\<rparr>], Some unknown_column)"
  by code_simp

text \<open>
  C5, amended. GetDependencies does not read \<open>endTs\<close> and \<open>lookback\<close>: it returns the
  same links and the same error for every window. It counts the reference edges of the
  whole store: in a store with referential integrity the call counts of the returned
  links add up to the number of stored reference edges, wherever the spans lie in time.
  A store without reference edges yields the empty list and no error.
\<close>

theorem GetDependencies_counts_every_edge:
  "GetDependencies r flt endTs lookback = GetDependencies r flt endTs' lookback' \<and>
   (span_refs r = [] \<longrightarrow> GetDependencies r None endTs lookback = ([], None)) \<and>
   (referential_integrity r \<and> length (span_refs r) < 2 ^ 64 \<longrightarrow>
      sum_list (map (\<lambda>l. unat (CallCount l)) (fst (GetDependencies r None endTs lookback))) =
        length (span_refs r))"
proof -
  have "sum_list (map (\<lambda>l. unat (CallCount l)) (fst (GetDependencies r None endTs lookback))) =
        length (span_refs r)"
    if i: "referential_integrity r" and b: "length (span_refs r) < 2 ^ 64"
  proof -
    have l: "length (GetDependencies_joined r) = length (span_refs r)"
      by (rule GetDependencies_joined_length [OF i])
    with b have "length (GetDependencies_joined r) < 2 ^ 64" by simp
    from GetDependencies_call_counts [OF this] l show ?thesis
      by (simp add: sum_list_count_remdups)
  qed
  with GetDependencies_window [of r flt endTs lookback endTs' lookback']
    GetDependencies_no_refs [of r endTs lookback]
  show ?thesis by blast
qed

theorem GetDependencies_counts_every_edge_witness:
  "span_refs catalogue_db = [] \<and>
   GetDependencies catalogue_db None 10 5 = ([], None) \<and>
   referential_integrity trace_db \<and>
   map StartTime (spans trace_db) = [100, 50, 70] \<and>
   length (span_refs trace_db) = 1 \<and>
   sum_list (map (\<lambda>l. unat (CallCount l)) (fst (GetDependencies trace_db None 10 5))) = 1 \<and>
   GetDependencies trace_db None 10 5 = GetDependencies trace_db None 1000 1000"
proof -
  have e: "span_refs catalogue_db = []" "referential_integrity trace_db"
    "map StartTime (spans trace_db) = [100, 50, 70]" "length (span_refs trace_db) = 1"
    by code_simp+
  from GetDependencies_counts_every_edge [of catalogue_db None 10 5 10 5] e(1)
  have a: "GetDependencies catalogue_db None 10 5 = ([], None)" by blast
  from GetDependencies_counts_every_edge [of trace_db None 10 5 10 5] e(2,4)
  have b: "sum_list (map (\<lambda>l. unat (CallCount l)) (fst (GetDependencies trace_db None 10 5))) = 1"
    by simp
  from GetDependencies_counts_every_edge [of trace_db None 10 5 1000 1000]
  have c: "GetDependencies trace_db None 10 5 = GetDependencies trace_db None 1000 1000"
    by blast
  from e a b c show ?thesis by blast
qed

text \<open>
  C2. The claim asks for one link from service \<open>a\<close> to service \<open>b\<close> with call count 1.
  In the example store span 1 (service \<open>a\<close>) references span 2 (service \<open>b\<close>).
  GetDependencies returns a link whose parent and child are the service identifiers 1
  and 2 as text, not the names, and with it the error of the column \<open>parent_name\<close>,
  for which \<open>DependencyLink\<close> has no field.
\<close>

theorem GetDependencies_error_and_ids:
  "services trace_db =
     [\<lparr>Service_ID = 1, ServiceName = ''a''\<rparr>, \<lparr>Service_ID = 2, ServiceName = ''b''\<rparr>] \<and>
   map (\<lambda>s. (Span_ID s, ServiceID s)) (spans trace_db) = [(1, 1), (2, 2), (3, 1)] \<and>
   span_refs trace_db = [\<lparr>SpanRef_ID = 1, ChildSpanID = 2\<rparr>] \<and>
   GetDependencies trace_db None 1000 1000 =
     ([\<lparr>Parent = ''1'', Child = ''2'', CallCount = 1, Source = []\<rparr>],
      Some (QueryError ''parent_name''))"
  by code_simp

end
